theory Spec2Isabelle
  imports Main
begin

section \<open>Matrix media download client (download.ts)\<close>

text \<open>
  The development embeds the media retrieval client: \<open>parseMXCUrl\<close>,
  \<open>getMediaEndpointPrefix\<close>, \<open>getSharedAgent\<close>, \<open>releaseDownloadAgent\<close> and
  \<open>downloadContent_v2\<close>.

  Conventions of the embedding.
  \<^item> A JavaScript string is a \<open>string\<close>: the list of the bytes of its UTF-8 form, an
    unpaired surrogate being written as the three bytes it would have as a code point
    (\<open>ED\<close>, then \<open>A0\<close> to \<open>BF\<close>, then a continuation byte). The only case mapping the
    code depends on is the test \<open>toLowerCase().startsWith("mxc://")\<close>; no character outside
    ASCII lowers to one of \<open>m x c : /\<close>, so lowering the ASCII letters is exact for it.
  \<open>null\<close> for a string argument is \<open>None\<close>. The bytes of a response body are a \<open>string\<close>
    too.
  \<^item> Every \<open>throw\<close> is a value: functions that can throw return a sum, \<open>Inl\<close> the error.
  \<^item> The module variables \<open>sharedAgent\<close> and \<open>agentRefCount\<close> are a record that is passed
    in and returned.
  \<^item> What the network answers is an input: the outcome of the versions probe and the outcome
    of the \<open>i\<close>-th GET attempt. What the code does to the outside (probe, sleep, GET) is
    returned as a list of events, in order.
  \<^item> Calls to \<open>LogService\<close>, the request id and the timing figures only feed log lines and
    are left out.
  \<^item> Arguments have the types the signature gives them: \<open>allowRemote\<close> is a boolean,
    \<open>timeoutMs\<close> and \<open>maxRetries\<close> are integers. Default values are bound by the caller.
\<close>

subsection \<open>parseMXCUrl\<close>

datatype mxc_error = NotValidMXC | MissingDomain | MissingMediaId

text \<open>The message of the \<open>Error\<close> thrown at each of the three sites of \<open>parseMXCUrl\<close>.\<close>

fun mxc_error_message :: "mxc_error \<Rightarrow> string" where
  "mxc_error_message NotValidMXC = ''Not a valid MXC URI''"
| "mxc_error_message MissingDomain = ''Missing domain component in MXC URI''"
| "mxc_error_message MissingMediaId = ''Missing mediaId component in MXC URI''"

record MXCComponents =
  domain :: string
  mediaId :: string

definition toLowerCase_char :: "char \<Rightarrow> char" where
  "toLowerCase_char c =
     (if (65::nat) \<le> of_char c \<and> of_char c \<le> (90::nat)
      then char_of (of_char c + (32::nat)) else c)"

definition toLowerCase :: "string \<Rightarrow> string" where
  "toLowerCase s = map toLowerCase_char s"

definition startsWith :: "string \<Rightarrow> string \<Rightarrow> bool" where
  "startsWith s p = (take (length p) s = p)"

text \<open>\<open>s.slice(n)\<close> for \<open>0 \<le> n\<close> is \<open>drop n s\<close>.\<close>

text \<open>
  \<open>s.split("/")\<close>: the pieces between the separators; never empty, \<open>"".split("/")\<close> is
  \<open>[""]\<close>.
\<close>

fun js_split :: "char \<Rightarrow> string \<Rightarrow> string list" where
  "js_split sep [] = [[]]"
| "js_split sep (c # cs) =
     (if c = sep then [] # js_split sep cs
      else (case js_split sep cs of
              [] \<Rightarrow> [[c]]
            | p # ps \<Rightarrow> (c # p) # ps))"

text \<open>\<open>parts.join("/")\<close>; the join of the empty array is the empty string.\<close>

fun js_join :: "string \<Rightarrow> string list \<Rightarrow> string" where
  "js_join sep [] = []"
| "js_join sep [p] = p"
| "js_join sep (p # q # ps) = p @ sep @ js_join sep (q # ps)"

definition parseMXCUrl :: "string option \<Rightarrow> mxc_error + MXCComponents" where
  "parseMXCUrl mxcUrl =
     (case mxcUrl of
        None \<Rightarrow> Inl NotValidMXC
      | Some u \<Rightarrow>
          if \<not> startsWith (toLowerCase u) ''mxc://'' then Inl NotValidMXC
          else (case js_split (CHR ''/'') (drop (length ''mxc://'') u) of
                  [] \<Rightarrow> Inl MissingDomain
                | d # mediaIdParts \<Rightarrow>
                    if d = [] then Inl MissingDomain
                    else let mid = js_join ''/'' mediaIdParts in
                      if mid = [] then Inl MissingMediaId
                      else Inr \<lparr>domain = d, mediaId = mid\<rparr>))"

text \<open>
  The reference definition, following the specification's words: the input must begin with
  the scheme prefix, case-insensitively; the prefix is removed and the remainder is cut at
  its first separator into the authority and the rest, which is kept verbatim.
\<close>

definition has_scheme_prefix :: "string \<Rightarrow> bool" where
  "has_scheme_prefix u = (map toLowerCase_char (take 6 u) = ''mxc://'')"

definition spec_authority :: "string \<Rightarrow> string" where
  "spec_authority r = takeWhile (\<lambda>c. c \<noteq> CHR ''/'') r"

definition spec_rest :: "string \<Rightarrow> string" where
  "spec_rest r = drop 1 (dropWhile (\<lambda>c. c \<noteq> CHR ''/'') r)"

definition parse_identifier_spec :: "string option \<Rightarrow> mxc_error + MXCComponents" where
  "parse_identifier_spec inp =
     (case inp of
        None \<Rightarrow> Inl NotValidMXC
      | Some u \<Rightarrow>
          if \<not> has_scheme_prefix u then Inl NotValidMXC
          else if spec_authority (drop 6 u) = [] then Inl MissingDomain
          else if spec_rest (drop 6 u) = [] then Inl MissingMediaId
          else Inr \<lparr>domain = spec_authority (drop 6 u), mediaId = spec_rest (drop 6 u)\<rparr>)"

subsection \<open>Helpers of the JavaScript platform\<close>

text \<open>\<open>haystack.includes(needle)\<close>: the needle occurs as a contiguous run.\<close>

fun js_includes :: "string \<Rightarrow> string \<Rightarrow> bool" where
  "js_includes [] needle = (needle = [])"
| "js_includes (c # cs) needle = (startsWith (c # cs) needle \<or> js_includes cs needle)"

text \<open>A non-negative integer inside a template literal: its decimal digits.\<close>

fun string_of_nat :: "nat \<Rightarrow> string" where
  "string_of_nat n =
     (if n < 10 then [char_of (48 + n)]
      else string_of_nat (n div 10) @ [char_of (48 + n mod 10)])"

declare string_of_nat.simps [simp del]

definition string_of_int :: "int \<Rightarrow> string" where
  "string_of_int i =
     (if i < 0 then CHR ''-'' # string_of_nat (nat (- i)) else string_of_nat (nat i))"

text \<open>What the platform and the libraries throw in the functions below.\<close>

datatype thrown =
    InvalidURL
  | FetchFailed
  | BodyNotJson
  | TypeError
  | URIError
  | InvalidArgument

text \<open>
  \<open>encodeURIComponent\<close>. It throws a \<open>URIError\<close> on a string that holds an unpaired
  surrogate, which in the byte form of a string is the byte \<open>ED\<close> followed by a byte from
  \<open>A0\<close> to \<open>BF\<close>. Otherwise every byte stays if it is a letter, a digit or one of
  \<open>- _ . ! ~ * ' ( )\<close>, and becomes \<open>%\<close> and its two upper-case hexadecimal digits if not.
\<close>

fun has_lone_surrogate :: "string \<Rightarrow> bool" where
  "has_lone_surrogate (a # b # cs) =
     ((of_char a = (237::nat) \<and> (160::nat) \<le> of_char b \<and> of_char b \<le> (191::nat))
      \<or> has_lone_surrogate (b # cs))"
| "has_lone_surrogate _ = False"

definition uri_unreserved :: "char \<Rightarrow> bool" where
  "uri_unreserved c =
     (let n = (of_char c :: nat)
      in (65 \<le> n \<and> n \<le> 90) \<or> (97 \<le> n \<and> n \<le> 122) \<or> (48 \<le> n \<and> n \<le> 57)
         \<or> c \<in> set ''-_.!~*()'' \<or> n = 39)"

definition hex_digit :: "nat \<Rightarrow> char" where
  "hex_digit n = ''0123456789ABCDEF'' ! (n mod 16)"

definition percent_encode :: "char \<Rightarrow> string" where
  "percent_encode c =
     (if uri_unreserved c then [c]
      else [CHR ''%'', hex_digit ((of_char c :: nat) div 16), hex_digit (of_char c :: nat)])"

definition encodeURIComponent :: "string \<Rightarrow> thrown + string" where
  "encodeURIComponent s =
     (if has_lone_surrogate s then Inl URIError else Inr (concat (map percent_encode s)))"

text \<open>
  Decoding bytes as UTF-8 into a string, as \<open>Buffer.utf8Slice\<close> does: a well-formed
  sequence is kept, and each maximal ill-formed run of bytes becomes one replacement
  character \<open>U+FFFD\<close>, whose bytes are \<open>EF BF BD\<close>.
\<close>

definition replacement_character :: string where
  "replacement_character = [char_of (239::nat), char_of (191::nat), char_of (189::nat)]"

definition byte_in :: "nat \<Rightarrow> nat \<Rightarrow> char \<Rightarrow> bool" where
  "byte_in lo hi c = (lo \<le> of_char c \<and> of_char c \<le> hi)"

fun utf8Slice :: "string \<Rightarrow> string" where
  "utf8Slice [] = []"
| "utf8Slice (b # bs) =
     (let n = (of_char b :: nat) in
      if n < 128 then b # utf8Slice bs
      else if 194 \<le> n \<and> n \<le> 223 then
        (case bs of
           [] \<Rightarrow> replacement_character
         | c # cs \<Rightarrow>
             if byte_in 128 191 c then b # c # utf8Slice cs
             else replacement_character @ utf8Slice bs)
      else if 224 \<le> n \<and> n \<le> 239 then
        (case bs of
           [] \<Rightarrow> replacement_character
         | c # cs \<Rightarrow>
             if byte_in (if n = 224 then 160 else 128) (if n = 237 then 159 else 191) c then
               (case cs of
                  [] \<Rightarrow> replacement_character
                | d # ds \<Rightarrow>
                    if byte_in 128 191 d then b # c # d # utf8Slice ds
                    else replacement_character @ utf8Slice cs)
             else replacement_character @ utf8Slice bs)
      else if 240 \<le> n \<and> n \<le> 244 then
        (case bs of
           [] \<Rightarrow> replacement_character
         | c # cs \<Rightarrow>
             if byte_in (if n = 240 then 144 else 128) (if n = 244 then 143 else 191) c then
               (case cs of
                  [] \<Rightarrow> replacement_character
                | d # ds \<Rightarrow>
                    if byte_in 128 191 d then
                      (case ds of
                         [] \<Rightarrow> replacement_character
                       | e # es \<Rightarrow>
                           if byte_in 128 191 e then b # c # d # e # utf8Slice es
                           else replacement_character @ utf8Slice ds)
                    else replacement_character @ utf8Slice cs)
             else replacement_character @ utf8Slice bs)
      else replacement_character @ utf8Slice bs)"

text \<open>
  \<open>response.body.text()\<close> on the chunks read: a byte-order mark at the start of a body
  longer than two bytes is skipped, the rest is decoded.
\<close>

definition byte_order_mark :: string where
  "byte_order_mark = [char_of (239::nat), char_of (187::nat), char_of (191::nat)]"

definition body_text :: "string list \<Rightarrow> string" where
  "body_text cs =
     (let buffer = concat cs
      in if length buffer > 2 \<and> take 3 buffer = byte_order_mark
         then utf8Slice (drop 3 buffer) else utf8Slice buffer)"

text \<open>
  The test undici's \<open>Pool\<close> constructor makes on the origin it is given
  (\<open>isHttpOrHttpsPrefixed\<close>): it begins with \<open>http:\<close> or \<open>https:\<close>.
\<close>

definition isHttpOrHttpsPrefixed :: "string \<Rightarrow> bool" where
  "isHttpOrHttpsPrefixed v = (startsWith v ''http:'' \<or> startsWith v ''https:'')"

text \<open>
  The argument \<open>homeserverUrl\<close> is only ever handed to \<open>new URL\<close>, alone or as the base of
  a path, and what the code then reads of the URL is its origin. The argument is
  represented by what the constructor makes of it:
  \<^item> \<open>InvalidUrl\<close>: no absolute URL; \<open>new URL\<close> throws a \<open>TypeError\<close> in both uses (the
    caller in \<open>monitor/media.ts\<close> passes \<open>""\<close> when the client has no homeserver);
  \<^item> \<open>OpaqueUrl\<close>: a URL that takes no path, as \<open>mailto:\<close>, \<open>data:\<close> and \<open>blob:\<close> URLs are;
    \<open>new URL(homeserverUrl)\<close> returns, \<open>new URL(path, homeserverUrl)\<close> throws a
    \<open>TypeError\<close>;
  \<^item> \<open>Url\<close>: both return.
  The string kept is the serialised origin of the URL: \<open>scheme://host\<close> with the port if
  any, or \<open>null\<close> for a URL that has no origin of its own.
\<close>

datatype server_url = InvalidUrl | OpaqueUrl (origin: string) | Url (origin: string)

subsection \<open>getMediaEndpointPrefix\<close>

text \<open>
  A parsed JSON value. Of a number only whether it is zero matters here; the members of an
  object are kept as the list of its own properties.
\<close>

datatype json =
    JNull
  | JBool bool
  | JNumber int
  | JString string
  | JArray "json list"
  | JObject "(string \<times> json) list"

text \<open>
  The outcome of \<open>fetch\<close> on the versions endpoint: the promise rejects, or it resolves to a
  response with its \<open>ok\<close> flag and the result of \<open>response.json()\<close> (\<open>None\<close> when the body is
  not JSON and \<open>json()\<close> rejects).
\<close>

datatype probe_outcome =
    FetchRejected
  | ProbeResponse (ok: bool) (json_body: "json option")

text \<open>JavaScript truthiness, as \<open>||\<close> tests it.\<close>

fun truthy :: "json \<Rightarrow> bool" where
  "truthy JNull = False"
| "truthy (JBool b) = b"
| "truthy (JNumber n) = (n \<noteq> 0)"
| "truthy (JString s) = (s \<noteq> [])"
| "truthy (JArray _) = True"
| "truthy (JObject _) = True"

text \<open>\<open>versions?.versions\<close>; \<open>None\<close> is \<open>undefined\<close>.\<close>

fun get_versions :: "json \<Rightarrow> json option" where
  "get_versions (JObject members) = map_of members ''versions''"
| "get_versions _ = None"

definition supportedVersions :: "json \<Rightarrow> json" where
  "supportedVersions versions =
     (case get_versions versions of
        None \<Rightarrow> JArray []
      | Some v \<Rightarrow> if truthy v then v else JArray [])"

definition digit_in :: "nat \<Rightarrow> nat \<Rightarrow> char \<Rightarrow> bool" where
  "digit_in lo hi c = (48 + lo \<le> of_char c \<and> of_char c \<le> 48 + hi)"

text \<open>The regular expression \<open>/^v1\.(1[1-9]|[2-9][0-9])$/\<close>.\<close>

definition matches_v1_11 :: "string \<Rightarrow> bool" where
  "matches_v1_11 v =
     (case v of
        [a, b, c, d, e] \<Rightarrow>
          a = CHR ''v'' \<and> b = CHR ''1'' \<and> c = CHR ''.'' \<and>
          ((d = CHR ''1'' \<and> digit_in 1 9 e) \<or> (digit_in 2 9 d \<and> digit_in 0 9 e))
      | _ \<Rightarrow> False)"

text \<open>
  \<open>array.some((v: string) => v.match(re))\<close>, left to right, stopping at the first match.
  On an entry that is no string \<open>v.match\<close> is not a function and the call throws.
\<close>

fun some_match :: "json list \<Rightarrow> thrown + bool" where
  "some_match [] = Inr False"
| "some_match (JString v # vs) = (if matches_v1_11 v then Inr True else some_match vs)"
| "some_match (_ # vs) = Inl TypeError"

text \<open>\<open>supportedVersions.some(...)\<close>: only an array has the method.\<close>

fun versions_some :: "json \<Rightarrow> thrown + bool" where
  "versions_some (JArray vs) = some_match vs"
| "versions_some _ = Inl TypeError"

datatype request = Request
  (req_origin: string)
  (req_downloadPath: string)
  (req_allow_remote_false: bool)
  (req_token: string)

text \<open>
  What the code does to the outside, in order: the GET of the versions endpoint (with the
  bearer token when there is one), a sleep of so many milliseconds, a GET of the media.
  The media request is \<open>agent.request\<close> on the pool (bound to \<open>req_origin\<close>) with path
  \<open>url.pathname + url.search\<close>, which \<open>new URL\<close> computes from the string \<open>downloadPath\<close> and
  from \<open>allowRemote\<close>; the event keeps these two.
\<close>

datatype event =
    ProbeVersions string "string option"
  | Sleep int
  | HttpGet request

text \<open>
  The body of the \<open>try\<close> block: \<open>Inl\<close> when something in it throws, \<open>Inr (Some p)\<close> when it
  returns \<open>p\<close>, \<open>Inr None\<close> when control falls out of it.
\<close>

definition probe_try :: "server_url \<Rightarrow> probe_outcome \<Rightarrow> thrown + string option" where
  "probe_try homeserverUrl outcome =
     (case homeserverUrl of
        InvalidUrl \<Rightarrow> Inl InvalidURL
      | OpaqueUrl _ \<Rightarrow> Inl InvalidURL
      | Url _ \<Rightarrow>
          (case outcome of
             FetchRejected \<Rightarrow> Inl FetchFailed
           | ProbeResponse is_ok body \<Rightarrow>
               if is_ok then
                 (case body of
                    None \<Rightarrow> Inl BodyNotJson
                  | Some versions \<Rightarrow>
                      (case versions_some (supportedVersions versions) of
                         Inl e \<Rightarrow> Inl e
                       | Inr found \<Rightarrow>
                           if found then Inr (Some ''/_matrix/client/v1/media'') else Inr None))
               else Inr None))"

definition getMediaEndpointPrefix :: "server_url \<Rightarrow> string \<Rightarrow> probe_outcome \<Rightarrow> string" where
  "getMediaEndpointPrefix homeserverUrl accessToken outcome =
     (case probe_try homeserverUrl outcome of
        Inr (Some prefix) \<Rightarrow> prefix
      | Inr None \<Rightarrow> ''/_matrix/media/v3''
      | Inl _ \<Rightarrow> ''/_matrix/media/v3'')"

text \<open>
  The request the probe sends, with the \<open>Authorization\<close> header when the access token is
  not empty; none when \<open>new URL\<close> has thrown before \<open>fetch\<close>. The token has no other use in
  the function.
\<close>

definition probe_events :: "server_url \<Rightarrow> string \<Rightarrow> event list" where
  "probe_events homeserverUrl accessToken =
     (case homeserverUrl of
        InvalidUrl \<Rightarrow> []
      | OpaqueUrl _ \<Rightarrow> []
      | Url orig \<Rightarrow> [ProbeVersions orig (if accessToken = [] then None else Some accessToken)])"

subsection \<open>The shared pool: getSharedAgent and releaseDownloadAgent\<close>

text \<open>
  A pool instance is identified by a serial number, so that two pools for one origin are
  two instances. The module state holds the two module variables; \<open>pools_created\<close> and
  \<open>pools_closed\<close> record the calls of \<open>new Pool\<close> that return and of \<open>close()\<close>, so that the
  pools still open can be told.

  \<open>new Pool(url.origin, ...)\<close> parses the origin again and throws when it cannot serve it:
  an \<open>InvalidArgumentError\<close> for an origin that does not begin with \<open>http:\<close> or \<open>https:\<close>,
  the \<open>TypeError\<close> of \<open>new URL\<close> for the origin \<open>null\<close>. The two assignments after it are then
  not reached: no pool is stored and the count is left as it was.
\<close>

record pool =
  pool_id :: nat
  pool_origin :: string

record module_state =
  sharedAgent :: "pool option"
  agentRefCount :: int
  pools_created :: nat
  pools_closed :: "pool list"

definition initial_state :: module_state where
  "initial_state =
     \<lparr>sharedAgent = None, agentRefCount = 0, pools_created = 0, pools_closed = []\<rparr>"

text \<open>
  The statements of \<open>getSharedAgent\<close> after \<open>new URL(homeserverUrl)\<close> has returned a URL
  with the given origin.
\<close>

definition create_pool :: "string \<Rightarrow> module_state \<Rightarrow> (thrown + pool) \<times> module_state" where
  "create_pool orig s =
     (if isHttpOrHttpsPrefixed orig then
        let p = \<lparr>pool_id = pools_created s, pool_origin = orig\<rparr>
        in (Inr p, s\<lparr>sharedAgent := Some p, agentRefCount := 1,
                     pools_created := Suc (pools_created s)\<rparr>)
      else if orig = ''null'' then (Inl InvalidURL, s)
      else (Inl InvalidArgument, s))"

definition getSharedAgent :: "server_url \<Rightarrow> module_state \<Rightarrow> (thrown + pool) \<times> module_state" where
  "getSharedAgent homeserverUrl s =
     (case sharedAgent s of
        Some p \<Rightarrow> (Inr p, s\<lparr>agentRefCount := agentRefCount s + 1\<rparr>)
      | None \<Rightarrow>
          (case homeserverUrl of
             InvalidUrl \<Rightarrow> (Inl InvalidURL, s)
           | OpaqueUrl orig \<Rightarrow> create_pool orig s
           | Url orig \<Rightarrow> create_pool orig s))"

definition releaseDownloadAgent :: "module_state \<Rightarrow> module_state" where
  "releaseDownloadAgent s =
     (let s1 = s\<lparr>agentRefCount := agentRefCount s - 1\<rparr>
      in (case sharedAgent s1 of
            Some p \<Rightarrow>
              if agentRefCount s1 \<le> 0
              then s1\<lparr>pools_closed := p # pools_closed s1, sharedAgent := None,
                      agentRefCount := 0\<rparr>
              else s1
          | None \<Rightarrow> s1))"

text \<open>The state after \<open>n\<close> calls of \<open>getSharedAgent\<close>, and after \<open>n\<close> releases.\<close>

definition acquire_times :: "nat \<Rightarrow> server_url \<Rightarrow> module_state \<Rightarrow> module_state" where
  "acquire_times n homeserverUrl s = ((\<lambda>t. snd (getSharedAgent homeserverUrl t)) ^^ n) s"

definition release_times :: "nat \<Rightarrow> module_state \<Rightarrow> module_state" where
  "release_times n s = (releaseDownloadAgent ^^ n) s"

text \<open>The pools created and not closed.\<close>

definition open_pools :: "module_state \<Rightarrow> nat list" where
  "open_pools s = filter (\<lambda>i. i \<notin> pool_id ` set (pools_closed s)) [0..<pools_created s]"

text \<open>The link the two module variables are meant to keep: a pool that exists is counted.\<close>

definition counted :: "module_state \<Rightarrow> bool" where
  "counted s = (case sharedAgent s of Some _ \<Rightarrow> 1 \<le> agentRefCount s | None \<Rightarrow> True)"

subsection \<open>downloadContent_v2\<close>

record DownloadResult =
  data :: string
  contentType :: string

text \<open>
  What \<open>agent.request\<close> does on one attempt: it rejects with an error of the given message,
  or it resolves to a response with a status code, headers (lower-cased names), and a body
  stream that yields its chunks and then ends, or fails with an error when \<open>stream_error\<close>
  is set.
\<close>

datatype attempt_outcome =
    RequestRejected string
  | Response (statusCode: nat) (headers: "string \<rightharpoonup> string")
      (chunks: "string list") (stream_error: "string option")

text \<open>
  The body of the \<open>try\<close> block of one attempt after the request was issued: \<open>Inl\<close> the
  message of the error thrown in it, \<open>Inr\<close> the value returned.
\<close>

definition attempt_once :: "attempt_outcome \<Rightarrow> string + DownloadResult" where
  "attempt_once outcome =
     (case outcome of
        RequestRejected msg \<Rightarrow> Inl msg
      | Response status hdrs cs failure \<Rightarrow>
          if status < 200 \<or> status \<ge> 300 then
            (case failure of
               Some msg \<Rightarrow> Inl msg
             | None \<Rightarrow>
                 let body = body_text cs
                 in Inl (''HTTP '' @ string_of_nat status @ '': '' @
                         (if body = [] then ''Unknown error'' else body)))
          else
            let ct = (case hdrs ''content-type'' of
                        None \<Rightarrow> ''application/octet-stream''
                      | Some v \<Rightarrow> if v = [] then ''application/octet-stream'' else v)
            in (case failure of
                  Some msg \<Rightarrow> Inl msg
                | None \<Rightarrow> Inr \<lparr>data = concat cs, contentType = ct\<rparr>))"

text \<open>
  The errors \<open>downloadContent_v2\<close> rejects with, one constructor for each place that throws:
  the parse error rethrown, the \<open>URIError\<close> of \<open>encodeURIComponent\<close>, the \<open>TypeError\<close> of
  \<open>new URL\<close>, the \<open>InvalidArgumentError\<close> of \<open>new Pool\<close>, \<open>lastError\<close> thrown as it is, the
  error of the last attempt, and the error after the loop.
\<close>

datatype download_error =
    ParseError mxc_error
  | UriError
  | UrlError
  | PoolError
  | Rethrown string
  | ExhaustedRetries int string
  | UnknownReason

fun error_message :: "download_error \<Rightarrow> string" where
  "error_message (ParseError e) = mxc_error_message e"
| "error_message UriError = ''URI malformed''"
| "error_message UrlError = ''Invalid URL''"
| "error_message PoolError =
     ''Invalid URL protocol: the URL must start with '' @ [CHR 0x60] @ ''http:'' @ [CHR 0x60] @
     '' or '' @ [CHR 0x60] @ ''https:'' @ [CHR 0x60] @ ''.''"
| "error_message (Rethrown msg) = msg"
| "error_message (ExhaustedRetries n msg) =
     ''Failed to download after '' @ string_of_int n @ '' attempts: '' @ msg"
| "error_message UnknownReason = ''Download failed for unknown reason''"

text \<open>\<open>Math.min(1000 * Math.pow(2, attempt - 1), 8000)\<close>, for \<open>attempt > 0\<close>.\<close>

definition backoff_delay :: "int \<Rightarrow> int" where
  "backoff_delay attempt = min (1000 * 2 ^ nat (attempt - 1)) 8000"

text \<open>
  The \<open>for\<close> loop and the \<open>throw\<close> after it, from the iteration \<open>attempt\<close> on with the current
  \<open>lastError\<close>. \<open>maxRetries\<close> is taken to be an integer, as the loop counts with it.
  The result is what the function returns or throws and the events of the loop.
\<close>

function attempt_loop ::
  "(nat \<Rightarrow> attempt_outcome) \<Rightarrow> request \<Rightarrow> int \<Rightarrow> int \<Rightarrow> string option
     \<Rightarrow> (download_error + DownloadResult) \<times> event list" where
  "attempt_loop responses rq maxRetries attempt lastError =
     (if attempt < maxRetries then
        (let evs = (if attempt > 0 then [Sleep (backoff_delay attempt)] else []) @ [HttpGet rq]
         in (case attempt_once (responses (nat attempt)) of
               Inr result \<Rightarrow> (Inr result, evs)
             | Inl msg \<Rightarrow>
                 if js_includes msg ''Not a valid MXC URI'' then (Inl (Rethrown msg), evs)
                 else if attempt = maxRetries - 1
                 then (Inl (ExhaustedRetries maxRetries msg), evs)
                 else (let rest = attempt_loop responses rq maxRetries (attempt + 1) (Some msg)
                       in (fst rest, evs @ snd rest))))
      else (case lastError of
              Some msg \<Rightarrow> (Inl (Rethrown msg), [])
            | None \<Rightarrow> (Inl UnknownReason, [])))"
  by pat_completeness auto
termination
  by (relation "measure (\<lambda>(responses, rq, maxRetries, attempt, lastError).
                  nat (maxRetries - attempt))") auto

record network =
  probe :: probe_outcome
  responses :: "nat \<Rightarrow> attempt_outcome"

text \<open>
  The whole call, in the module state \<open>s\<close>: the result, the events in order, and the module
  state after the call.
\<close>

text \<open>
  The string \<open>downloadPath\<close> of the call: the prefix, \<open>/download/\<close> and the two components
  of the identifier, each through \<open>encodeURIComponent\<close>, the domain first.
\<close>

definition downloadPath :: "string \<Rightarrow> MXCComponents \<Rightarrow> thrown + string" where
  "downloadPath endpoint mxcComponents =
     (case encodeURIComponent (domain mxcComponents) of
        Inl e \<Rightarrow> Inl e
      | Inr d \<Rightarrow>
          (case encodeURIComponent (mediaId mxcComponents) of
             Inl e \<Rightarrow> Inl e
           | Inr m \<Rightarrow> Inr (endpoint @ ''/download/'' @ d @ ''/'' @ m)))"

definition downloadContent_v2 ::
  "network \<Rightarrow> string option \<Rightarrow> server_url \<Rightarrow> string \<Rightarrow> bool \<Rightarrow> int \<Rightarrow> int \<Rightarrow> module_state
     \<Rightarrow> (download_error + DownloadResult) \<times> event list \<times> module_state" where
  "downloadContent_v2 net mxcUrl homeserverUrl accessToken allowRemote timeoutMs maxRetries s =
     (case parseMXCUrl mxcUrl of
        Inl e \<Rightarrow> (Inl (ParseError e), [], s)
      | Inr mxcComponents \<Rightarrow>
          let endpoint = getMediaEndpointPrefix homeserverUrl accessToken (probe net);
              pevs = probe_events homeserverUrl accessToken
          in (case downloadPath endpoint mxcComponents of
                Inl _ \<Rightarrow> (Inl UriError, pevs, s)
              | Inr path \<Rightarrow>
                  (case homeserverUrl of
                     InvalidUrl \<Rightarrow> (Inl UrlError, pevs, s)
                   | OpaqueUrl _ \<Rightarrow> (Inl UrlError, pevs, s)
                   | Url _ \<Rightarrow>
                       (case getSharedAgent homeserverUrl s of
                          (Inl InvalidArgument, s') \<Rightarrow> (Inl PoolError, pevs, s')
                        | (Inl _, s') \<Rightarrow> (Inl UrlError, pevs, s')
                        | (Inr agent, s') \<Rightarrow>
                            let rq = Request (pool_origin agent) path (\<not> allowRemote)
                                       accessToken;
                                run = attempt_loop (responses net) rq maxRetries 0 None
                            in (fst run, pevs @ snd run, s')))))"

subsection \<open>Notions used to state the properties\<close>

text \<open>The number of media requests among the events: the attempts made.\<close>

fun is_HttpGet :: "event \<Rightarrow> bool" where
  "is_HttpGet (HttpGet _) = True"
| "is_HttpGet _ = False"

definition attempts_made :: "event list \<Rightarrow> nat" where
  "attempts_made evs = length (filter is_HttpGet evs)"

text \<open>
  The events the specification gives to the attempt with index \<open>i\<close>: for \<open>i > 0\<close> a sleep of
  \<open>min(1000 * 2^(i-1), 8000)\<close> milliseconds, then the request; for \<open>i = 0\<close> the request alone.
\<close>

definition attempt_events :: "request \<Rightarrow> nat \<Rightarrow> event list" where
  "attempt_events rq i =
     (if 0 < i then [Sleep (min (1000 * 2 ^ (i - 1)) 8000)] else []) @ [HttpGet rq]"

text \<open>
  An attempt that fails and lets the loop go on: its error message does not contain the
  phrase the \<open>catch\<close> block looks for.
\<close>

definition retryable_failure :: "attempt_outcome \<Rightarrow> bool" where
  "retryable_failure outcome =
     (case attempt_once outcome of
        Inl msg \<Rightarrow> \<not> js_includes msg ''Not a valid MXC URI''
      | Inr _ \<Rightarrow> False)"

definition failure_message :: "attempt_outcome \<Rightarrow> string" where
  "failure_message outcome = (case attempt_once outcome of Inl msg \<Rightarrow> msg | Inr _ \<Rightarrow> [])"

text \<open>
  The waits and requests of a call, in order, without the data of the requests: what the
  retry schedule is about.
\<close>

datatype step = Wait int | Issue

fun steps :: "event list \<Rightarrow> step list" where
  "steps [] = []"
| "steps (Sleep ms # evs) = Wait ms # steps evs"
| "steps (HttpGet _ # evs) = Issue # steps evs"
| "steps (ProbeVersions _ _ # evs) = steps evs"

subsection \<open>Example inputs\<close>

definition example_server :: server_url where
  "example_server = Url ''https://matrix.example.com''"

text \<open>A server that answers 503 twice and then delivers a PNG in two chunks.\<close>

definition flaky_network :: network where
  "flaky_network =
     \<lparr>probe = FetchRejected,
      responses = (\<lambda>i. if i < 2 then Response 503 Map.empty [''busy''] None
                        else Response 200 [''content-type'' \<mapsto> ''image/png'']
                               [''ab'', ''cd''] None)\<rparr>"

text \<open>A server that sends the \<open>Content-Type\<close> header with an empty value.\<close>

definition empty_type_network :: network where
  "empty_type_network =
     \<lparr>probe = FetchRejected,
      responses = (\<lambda>i. Response 200 [''content-type'' \<mapsto> []] [''abc''] None)\<rparr>"

text \<open>A server whose 404 page quotes the phrase the \<open>catch\<close> block looks for.\<close>

definition phrase_network :: network where
  "phrase_network =
     \<lparr>probe = FetchRejected,
      responses = (\<lambda>i. Response 404 Map.empty [''Not a valid MXC URI''] None)\<rparr>"

text \<open>A server that refuses every connection.\<close>

definition down_network :: network where
  "down_network =
     \<lparr>probe = FetchRejected,
      responses = (\<lambda>i. RequestRejected ''connect ECONNREFUSED'')\<rparr>"

text \<open>A versions document that advertises only version 1.100.\<close>

definition future_versions :: probe_outcome where
  "future_versions =
     ProbeResponse True (Some (JObject [(''versions'', JArray [JString ''v1.100''])]))"

section \<open>Properties\<close>

subsection \<open>The platform helpers on examples\<close>

lemma encodeURIComponent_examples:
  "encodeURIComponent ''matrix.org:8448'' = Inr ''matrix.org%3A8448''"
  "encodeURIComponent ''a/b c~(x)'' = Inr ''a%2Fb%20c~(x)''"
  "encodeURIComponent [CHR ''a'', char_of (195::nat), char_of (169::nat)] = Inr ''a%C3%A9''"
  "encodeURIComponent [CHR ''a'', char_of (237::nat), char_of (160::nat), char_of (128::nat)] =
     Inl URIError"
  by code_simp+

lemma body_text_examples:
  "body_text [] = []"
  "body_text [''Not '', ''found''] = ''Not found''"
  "body_text [[char_of (239::nat), char_of (187::nat), char_of (191::nat), CHR ''h'', CHR ''i'']] = ''hi''"
  "body_text [[char_of (239::nat), char_of (187::nat), char_of (191::nat)]] = []"
  "body_text [[CHR ''a'', char_of (255::nat), CHR ''b'']] =
     CHR ''a'' # replacement_character @ ''b''"
  "body_text [[char_of (224::nat), char_of (128::nat)]] =
     replacement_character @ replacement_character"
  by code_simp+

lemma isHttpOrHttpsPrefixed_examples:
  "isHttpOrHttpsPrefixed ''https://matrix.example.com''"
  "isHttpOrHttpsPrefixed ''http://localhost:8008''"
  "\<not> isHttpOrHttpsPrefixed ''ftp://example.com''"
  "\<not> isHttpOrHttpsPrefixed ''null''"
  by code_simp+

subsection \<open>The identifier parser\<close>

lemma js_split_not_Nil: "js_split c s \<noteq> []"
  by (induction s) (auto split: list.splits)

lemma hd_js_split: "hd (js_split (CHR ''/'') r) = takeWhile (\<lambda>c. c \<noteq> CHR ''/'') r"
  by (induction r) (auto split: list.splits simp: js_split_not_Nil)

text \<open>Joining what was split gives the string back: no separator is lost or added.\<close>

lemma js_join_js_split: "js_join [c] (js_split c s) = s"
proof (induction s)
  case Nil
  show ?case by simp
next
  case (Cons a s)
  obtain p ps where ps: "js_split c s = p # ps"
    using js_split_not_Nil [of c s] by (cases "js_split c s") auto
  show ?case
  proof (cases "a = c")
    case True
    with Cons ps show ?thesis by simp
  next
    case False
    with Cons ps show ?thesis by (cases ps) auto
  qed
qed

lemma tl_js_split:
  "js_join ''/'' (tl (js_split (CHR ''/'') r)) = drop 1 (dropWhile (\<lambda>c. c \<noteq> CHR ''/'') r)"
proof (induction r)
  case Nil
  show ?case by simp
next
  case (Cons a r)
  show ?case
  proof (cases "a = CHR ''/''")
    case True
    then show ?thesis using js_join_js_split [of "CHR ''/''" r] by simp
  next
    case False
    obtain p ps where ps: "js_split (CHR ''/'') r = p # ps"
      using js_split_not_Nil [of "CHR ''/''" r] by (cases "js_split (CHR ''/'') r") auto
    with False Cons show ?thesis by simp
  qed
qed

lemma length_scheme: "length ''mxc://'' = 6"
  by simp

lemma startsWith_prefix: "startsWith (toLowerCase u) ''mxc://'' = has_scheme_prefix u"
  unfolding startsWith_def toLowerCase_def has_scheme_prefix_def length_scheme
  by (simp add: take_map)

text \<open>
  The reference definition does what the specification's examples say: an input made of a
  prefix that lowers to the scheme, an authority without separator and a rest is cut into
  exactly these two, whatever separators the rest holds.
\<close>

lemma spec_authority_append:
  "CHR ''/'' \<notin> set a \<Longrightarrow> spec_authority (a @ CHR ''/'' # r) = a"
  by (simp add: spec_authority_def takeWhile_append)

lemma spec_rest_append:
  "CHR ''/'' \<notin> set a \<Longrightarrow> spec_rest (a @ CHR ''/'' # r) = r"
  by (simp add: spec_rest_def dropWhile_append)

lemma parse_identifier_spec_cut:
  assumes "map toLowerCase_char p = ''mxc://''" and "CHR ''/'' \<notin> set a"
    and "a \<noteq> []" and "r \<noteq> []"
  shows "parse_identifier_spec (Some (p @ a @ CHR ''/'' # r)) = Inr \<lparr>domain = a, mediaId = r\<rparr>"
proof -
  have len: "length p = 6"
    using assms(1) length_map [of toLowerCase_char p] by simp
  then have "has_scheme_prefix (p @ a @ CHR ''/'' # r)"
    using assms(1) by (simp add: has_scheme_prefix_def)
  then show ?thesis
    using len assms(2-4)
    by (simp add: parse_identifier_spec_def spec_authority_append spec_rest_append)
qed

text \<open>
  Claim C1. The identifier parser \<open>parseMXCUrl\<close> equals the reference definition on every
  input, the absent one included: it fails with the invalid-identifier error
  (\<open>NotValidMXC\<close>) when the input does not begin with the scheme prefix, compared
  case-insensitively, with the missing-authority error (\<open>MissingDomain\<close>) when the part
  before the first separator is empty, with the missing-resource error (\<open>MissingMediaId\<close>)
  when the part after it is empty, and else returns the two parts, the second verbatim with
  its further separators.
\<close>

theorem parseMXCUrl_refines_spec: "parseMXCUrl inp = parse_identifier_spec inp"
proof (cases inp)
  case None
  then show ?thesis by (simp add: parseMXCUrl_def parse_identifier_spec_def)
next
  case (Some u)
  obtain d ps where sp: "js_split (CHR ''/'') (drop 6 u) = d # ps"
    using js_split_not_Nil [of "CHR ''/''" "drop 6 u"]
    by (cases "js_split (CHR ''/'') (drop 6 u)") auto
  have d: "d = spec_authority (drop 6 u)"
    using hd_js_split [of "drop 6 u"] sp by (simp add: spec_authority_def)
  have m: "js_join ''/'' ps = spec_rest (drop 6 u)"
    using tl_js_split [of "drop 6 u"] sp by (simp add: spec_rest_def)
  show ?thesis
    unfolding parseMXCUrl_def parse_identifier_spec_def startsWith_prefix length_scheme
    using Some sp d m by (simp add: Let_def)
qed

theorem parseMXCUrl_refines_spec_witness:
  "parseMXCUrl (Some ''MXC://matrix.org/a/b'') = Inr \<lparr>domain = ''matrix.org'', mediaId = ''a/b''\<rparr>
   \<and> parseMXCUrl (Some ''mxc://'') = Inl MissingDomain
   \<and> parseMXCUrl (Some ''mxc://matrix.org'') = Inl MissingMediaId
   \<and> parseMXCUrl (Some '''') = Inl NotValidMXC
   \<and> parseMXCUrl None = Inl NotValidMXC"
  unfolding parseMXCUrl_refines_spec by code_simp

subsection \<open>The attempt loop\<close>

text \<open>
  The defining equation of the loop unfolds without end; it is applied by hand, one
  iteration at a time.
\<close>

declare attempt_loop.simps [simp del]

lemma backoff_delay_nat: "0 < a \<Longrightarrow> backoff_delay a = min (1000 * 2 ^ (nat a - 1)) 8000"
  by (simp add: backoff_delay_def nat_diff_distrib)

lemma loop_head_events:
  "0 \<le> a \<Longrightarrow>
   (if a > 0 then [Sleep (backoff_delay a)] else []) @ [HttpGet rq] = attempt_events rq (nat a)"
  by (simp add: attempt_events_def backoff_delay_nat)

lemma attempts_made_simps:
  "attempts_made [] = 0"
  "attempts_made (attempt_events rq i @ evs) = Suc (attempts_made evs)"
  by (simp_all add: attempts_made_def attempt_events_def)

lemma attempts_made_single: "attempts_made (attempt_events rq i) = Suc 0"
  by (simp add: attempts_made_def attempt_events_def)

lemma upt_plus_Suc: "[n..<n + Suc c] = n # [Suc n..<Suc n + c]"
  by (simp add: upt_conv_Cons)

lemma attempt_loop_events:
  "0 \<le> a \<Longrightarrow>
   snd (attempt_loop R rq m a le) =
     concat (map (attempt_events rq)
       [nat a ..< nat a + attempts_made (snd (attempt_loop R rq m a le))])"
proof (induction R rq m a le rule: attempt_loop.induct)
  case (1 R rq m a le)
  show ?case
  proof (cases "a < m")
    case False
    then show ?thesis
      by (simp add: attempt_loop.simps [of R rq m a le] attempts_made_simps split: option.splits)
  next
    case True
    note lt = this
    show ?thesis
    proof (cases "attempt_once (R (nat a))")
      case (Inr res)
      with lt 1(2) show ?thesis
        by (simp add: attempt_loop.simps [of R rq m a le] loop_head_events
              attempts_made_single Let_def)
    next
      case (Inl msg)
      show ?thesis
      proof (cases "js_includes msg ''Not a valid MXC URI'' \<or> a = m - 1")
        case True
        with lt Inl 1(2) show ?thesis
          by (auto simp add: attempt_loop.simps [of R rq m a le] loop_head_events
              attempts_made_single Let_def)
      next
        case False
        then have nf: "\<not> js_includes msg ''Not a valid MXC URI''" and nl: "a \<noteq> m - 1"
          by auto
        have IH: "snd (attempt_loop R rq m (a + 1) (Some msg)) =
            concat (map (attempt_events rq)
              [nat (a + 1) ..< nat (a + 1) + attempts_made (snd (attempt_loop R rq m (a + 1) (Some msg)))])"
          using 1(1) [OF lt refl Inl nf nl] 1(2) by simp
        have n1: "nat (a + 1) = Suc (nat a)"
          using 1(2) by (simp add: nat_add_distrib)
        have unfold: "snd (attempt_loop R rq m a le) =
            attempt_events rq (nat a) @ snd (attempt_loop R rq m (a + 1) (Some msg))"
          using lt Inl nf nl 1(2)
          by (simp add: attempt_loop.simps [of R rq m a le] loop_head_events Let_def)
        show ?thesis
          unfolding unfold attempts_made_simps upt_plus_Suc
          using IH n1 by simp
      qed
    qed
  qed
qed


lemma attempt_loop_step:
  assumes "0 \<le> a" and "a < m"
  shows "attempt_loop R rq m a le =
     (case attempt_once (R (nat a)) of
        Inr result \<Rightarrow> (Inr result, attempt_events rq (nat a))
      | Inl msg \<Rightarrow>
          if js_includes msg ''Not a valid MXC URI''
          then (Inl (Rethrown msg), attempt_events rq (nat a))
          else if a = m - 1 then (Inl (ExhaustedRetries m msg), attempt_events rq (nat a))
          else (fst (attempt_loop R rq m (a + 1) (Some msg)),
                attempt_events rq (nat a) @ snd (attempt_loop R rq m (a + 1) (Some msg))))"
proof -
  have "attempt_loop R rq m a le =
     (let evs = attempt_events rq (nat a)
      in (case attempt_once (R (nat a)) of
            Inr result \<Rightarrow> (Inr result, evs)
          | Inl msg \<Rightarrow>
              if js_includes msg ''Not a valid MXC URI'' then (Inl (Rethrown msg), evs)
              else if a = m - 1 then (Inl (ExhaustedRetries m msg), evs)
              else (let rest = attempt_loop R rq m (a + 1) (Some msg)
                    in (fst rest, evs @ snd rest))))"
    using assms(2) loop_head_events [OF assms(1), of rq]
    by (subst attempt_loop.simps) simp
  then show ?thesis by (simp add: Let_def split: sum.split)
qed

lemma retryable_failureD:
  "retryable_failure outcome \<Longrightarrow>
   attempt_once outcome = Inl (failure_message outcome) \<and>
   \<not> js_includes (failure_message outcome) ''Not a valid MXC URI''"
  by (auto simp: retryable_failure_def failure_message_def split: sum.splits)

lemma attempt_loop_exhausted:
  "0 \<le> a \<Longrightarrow> a < m \<Longrightarrow> (\<forall>i. nat a \<le> i \<and> i < nat m \<longrightarrow> retryable_failure (R i)) \<Longrightarrow>
   attempt_loop R rq m a le =
     (Inl (ExhaustedRetries m (failure_message (R (nat m - 1)))),
      concat (map (attempt_events rq) [nat a ..< nat m]))"
proof (induction R rq m a le rule: attempt_loop.induct)
  case (1 R rq m a le)
  have here: "retryable_failure (R (nat a))"
    using 1(2,3,4) by simp
  note f = retryable_failureD [OF here]
  show ?case
  proof (cases "a = m - 1")
    case True
    then have m: "nat m = Suc (nat a)" "nat m - 1 = nat a"
      using 1(2) by simp_all
    have "attempt_loop R rq m a le =
        (Inl (ExhaustedRetries m (failure_message (R (nat a)))), attempt_events rq (nat a))"
      unfolding attempt_loop_step [OF 1(2,3), of R rq le]
      using True f by simp
    then show ?thesis
      using m by simp
  next
    case False
    then have lt: "a + 1 < m" using 1(3) by simp
    have n1: "nat (a + 1) = Suc (nat a)"
      using 1(2) by (simp add: nat_add_distrib)
    have rest: "attempt_loop R rq m (a + 1) (Some (failure_message (R (nat a)))) =
       (Inl (ExhaustedRetries m (failure_message (R (nat m - 1)))),
        concat (map (attempt_events rq) [nat (a + 1) ..< nat m]))"
      using 1(1) [OF 1(3) refl conjunct1 [OF f] conjunct2 [OF f] False] 1(2,4) lt n1
      by simp
    have "nat a < nat m" using 1(2,3) by simp
    then have cut: "[nat a ..< nat m] = nat a # [Suc (nat a) ..< nat m]"
      by (simp add: upt_conv_Cons)
    show ?thesis
      unfolding attempt_loop_step [OF 1(2,3), of R rq le]
      using f False rest n1 cut by simp
  qed
qed

lemma attempt_loop_success:
  "0 \<le> a \<Longrightarrow> nat a \<le> k \<Longrightarrow> int k < m \<Longrightarrow>
   (\<forall>i. nat a \<le> i \<and> i < k \<longrightarrow> retryable_failure (R i)) \<Longrightarrow>
   attempt_once (R k) = Inr res \<Longrightarrow>
   attempt_loop R rq m a le =
     (Inr res, concat (map (attempt_events rq) [nat a ..< Suc k]))"
proof (induction R rq m a le rule: attempt_loop.induct)
  case (1 R rq m a le)
  have lt: "a < m" using 1(2,3,4) by linarith
  show ?case
  proof (cases "nat a = k")
    case True
    show ?thesis
      unfolding attempt_loop_step [OF 1(2) lt, of R rq le]
      using True 1(6) by simp
  next
    case False
    then have less: "nat a < k" using 1(3) by simp
    then have here: "retryable_failure (R (nat a))"
      using 1(5) by simp
    note f = retryable_failureD [OF here]
    have notlast: "a \<noteq> m - 1" using less 1(2,4) by linarith
    have n1: "nat (a + 1) = Suc (nat a)"
      using 1(2) by (simp add: nat_add_distrib)
    have rest: "attempt_loop R rq m (a + 1) (Some (failure_message (R (nat a)))) =
       (Inr res, concat (map (attempt_events rq) [nat (a + 1) ..< Suc k]))"
      using 1(1) [OF lt refl conjunct1 [OF f] conjunct2 [OF f] notlast] 1(2,4,5,6) less n1
      by simp
    have cut: "[nat a ..< Suc k] = nat a # [Suc (nat a) ..< Suc k]"
      using less by (simp add: upt_conv_Cons del: upt_Suc)
    show ?thesis
      unfolding attempt_loop_step [OF 1(2) lt, of R rq le]
      using f notlast rest n1 cut by (simp del: upt_Suc)
  qed
qed

lemma attempt_loop_none:
  "\<not> a < m \<Longrightarrow> attempt_loop R rq m a None = (Inl UnknownReason, [])"
  by (simp add: attempt_loop.simps [of R rq m a None])

text \<open>
  The guard of the \<open>catch\<close> block: a failure whose message contains the phrase ends the loop
  at once, whatever the number of attempts left, with that error as it is.
\<close>

lemma attempt_loop_rethrown:
  assumes "0 \<le> a" and "a < m" and "attempt_once (R (nat a)) = Inl msg"
    and "js_includes msg ''Not a valid MXC URI''"
  shows "attempt_loop R rq m a le = (Inl (Rethrown msg), attempt_events rq (nat a))"
  unfolding attempt_loop_step [OF assms(1,2), of R rq le]
  using assms(3,4) by simp

subsection \<open>The endpoint version resolver\<close>

text \<open>
  The resolver has no failing result: whatever is thrown inside its \<open>try\<close> block, it
  returns one of the two prefixes.
\<close>

lemma string_of_nat_two_digits:
  assumes "10 \<le> n" and "n \<le> 99"
  shows "string_of_nat n = [char_of (48 + n div 10), char_of (48 + n mod 10)]"
proof -
  have "n div 10 < 10" using assms(2) by simp
  then have "string_of_nat (n div 10) = [char_of (48 + n div 10)]"
    by (simp add: string_of_nat.simps [of "n div 10"])
  then show ?thesis
    using assms(1) by (simp add: string_of_nat.simps [of n])
qed

lemma digit_in_char_of:
  "x \<le> 9 \<Longrightarrow> digit_in lo hi (char_of (48 + x)) = (lo \<le> x \<and> x \<le> hi)"
  by (simp add: digit_in_def)

lemma digit_in_of_char:
  assumes "digit_in lo hi c" and "hi \<le> 9"
  shows "c = char_of (48 + (of_char c - 48 :: nat)) \<and> lo \<le> (of_char c - 48 :: nat)
         \<and> (of_char c - 48 :: nat) \<le> hi"
proof -
  have "48 + (of_char c - 48 :: nat) = of_char c"
    using assms(1) by (simp add: digit_in_def)
  then have "char_of (48 + (of_char c - 48 :: nat)) = c"
    by simp
  then show ?thesis
    using assms by (auto simp: digit_in_def)
qed

lemma char_of_digit_one: "x \<le> 9 \<Longrightarrow> (char_of (48 + x) = CHR ''1'') = (x = (1::nat))"
proof -
  assume x: "x \<le> 9"
  have "(char_of (48 + x) = CHR ''1'') = ((of_char (char_of (48 + x)) :: nat) = of_char (CHR ''1''))"
    by (metis char_of_char)
  also have "\<dots> = (x = 1)"
    using x by simp
  finally show ?thesis .
qed

lemma matches_v1_11_two_digits:
  assumes "11 \<le> n" and "n \<le> 99"
  shows "matches_v1_11 (''v1.'' @ string_of_nat n)"
proof -
  have d: "n div 10 \<le> 9" "n mod 10 \<le> 9" "1 \<le> n div 10"
    using assms by simp_all
  have "n div 10 = 1 \<longrightarrow> 1 \<le> n mod 10"
    using assms(1) by presburger
  then show ?thesis
    using d assms
    by (auto simp add: matches_v1_11_def string_of_nat_two_digits digit_in_char_of
          char_of_digit_one)
qed

lemma matches_v1_11_iff:
  "matches_v1_11 v \<longleftrightarrow> (\<exists>n. 11 \<le> n \<and> n \<le> 99 \<and> v = ''v1.'' @ string_of_nat n)"
proof
  assume "\<exists>n. 11 \<le> n \<and> n \<le> 99 \<and> v = ''v1.'' @ string_of_nat n"
  then show "matches_v1_11 v"
    using matches_v1_11_two_digits by blast
next
  assume m: "matches_v1_11 v"
  then obtain d e where v: "v = [CHR ''v'', CHR ''1'', CHR ''.'', d, e]"
    and de: "(d = CHR ''1'' \<and> digit_in 1 9 e) \<or> (digit_in 2 9 d \<and> digit_in 0 9 e)"
    by (auto simp: matches_v1_11_def split: list.splits)
  define x where "x = (of_char d - 48 :: nat)"
  define y where "y = (of_char e - 48 :: nat)"
  have dd: "digit_in 1 9 d"
    using de by (auto simp: digit_in_def)
  have ee: "digit_in 0 9 e"
    using de by (auto simp: digit_in_def)
  have xd: "d = char_of (48 + x)" "1 \<le> x" "x \<le> 9"
    using digit_in_of_char [OF dd] by (simp_all add: x_def)
  have ye: "e = char_of (48 + y)" "y \<le> 9"
    using digit_in_of_char [OF ee] by (simp_all add: y_def)
  have y1: "x = 1 \<longrightarrow> 1 \<le> y"
  proof
    assume "x = 1"
    then have "\<not> digit_in 2 9 d"
      using xd(1) by (simp add: digit_in_def)
    with de have "digit_in 1 9 e" by blast
    then show "1 \<le> y"
      using digit_in_of_char [of 1 9 e] by (simp add: y_def)
  qed
  let ?n = "10 * x + y"
  have "string_of_nat ?n = [d, e]"
    using xd ye by (simp add: string_of_nat_two_digits)
  moreover have "11 \<le> ?n" "?n \<le> 99"
    using xd ye y1 by auto
  ultimately show "\<exists>n. 11 \<le> n \<and> n \<le> 99 \<and> v = ''v1.'' @ string_of_nat n"
    using v by (intro exI [of _ ?n]) simp
qed

lemma some_match_strings:
  "some_match (map JString vs) = Inr (\<exists>v \<in> set vs. matches_v1_11 v)"
  by (induction vs) simp_all

lemma getMediaEndpointPrefix_total:
  "getMediaEndpointPrefix homeserverUrl accessToken outcome = ''/_matrix/client/v1/media''
   \<or> getMediaEndpointPrefix homeserverUrl accessToken outcome = ''/_matrix/media/v3''"
  by (simp add: getMediaEndpointPrefix_def probe_try_def
        split: server_url.splits probe_outcome.splits option.splits sum.splits)

lemma getMediaEndpointPrefix_failures:
  "getMediaEndpointPrefix InvalidUrl accessToken outcome = ''/_matrix/media/v3''"
  "getMediaEndpointPrefix (OpaqueUrl orig) accessToken outcome = ''/_matrix/media/v3''"
  "getMediaEndpointPrefix homeserverUrl accessToken FetchRejected = ''/_matrix/media/v3''"
  "getMediaEndpointPrefix homeserverUrl accessToken (ProbeResponse False body) = ''/_matrix/media/v3''"
  "getMediaEndpointPrefix homeserverUrl accessToken (ProbeResponse True None) = ''/_matrix/media/v3''"
  by (simp_all add: getMediaEndpointPrefix_def probe_try_def split: server_url.splits)

lemma getMediaEndpointPrefix_strings:
  "getMediaEndpointPrefix (Url orig) accessToken
     (ProbeResponse True (Some (JObject [(''versions'', JArray (map JString vs))]))) =
   (if \<exists>v \<in> set vs. matches_v1_11 v then ''/_matrix/client/v1/media''
    else ''/_matrix/media/v3'')"
  by (simp add: getMediaEndpointPrefix_def probe_try_def supportedVersions_def
        some_match_strings)

text \<open>
  The regular expression accepts exactly the versions 1.11 to 1.99: a minor version of three
  digits does not match it.
\<close>

lemma not_matches_three_digits: "\<not> matches_v1_11 (''v1.'' @ string_of_nat 100)"
  by code_simp

text \<open>
  Claim C2. The endpoint version resolver is to return the modern prefix exactly when the
  probe succeeds and some advertised version has major version 1 and a minor version of at
  least 11, and the legacy prefix in every other case, never an error. The source's own
  comments say the same (\<open>v1.11+ uses /_matrix/client/v1/media\<close>, \<open>Check for v1.11 or
  later\<close>). On a successful probe whose version list is \<open>["v1.100"]\<close> the code returns the
  legacy prefix: the evaluation below.
\<close>

theorem getMediaEndpointPrefix_v1_100:
  "getMediaEndpointPrefix example_server ''token'' future_versions = ''/_matrix/media/v3''
   \<and> future_versions =
       ProbeResponse True
         (Some (JObject [(''versions'', JArray [JString (''v1.'' @ string_of_nat 100)])]))"
  by code_simp

subsection \<open>The shared pool\<close>

lemma releaseDownloadAgent_absent:
  "sharedAgent s = None \<Longrightarrow> releaseDownloadAgent s = s\<lparr>agentRefCount := agentRefCount s - 1\<rparr>"
  by (simp add: releaseDownloadAgent_def Let_def)

text \<open>
  What the two operations do keep: a pool that exists is counted at least once, so with a
  pool present a release never takes the count below zero.
\<close>

lemma counted_initial: "counted initial_state"
  by (simp add: counted_def initial_state_def)

lemma counted_getSharedAgent: "counted s \<Longrightarrow> counted (snd (getSharedAgent homeserverUrl s))"
  by (auto simp: counted_def getSharedAgent_def create_pool_def Let_def
        split: option.splits server_url.splits)

lemma counted_releaseDownloadAgent: "counted s \<Longrightarrow> counted (releaseDownloadAgent s)"
  by (auto simp: counted_def releaseDownloadAgent_def Let_def split: option.splits)

lemma release_with_pool_not_negative:
  "counted s \<Longrightarrow> sharedAgent s \<noteq> None \<Longrightarrow> 0 \<le> agentRefCount (releaseDownloadAgent s)"
  by (auto simp: counted_def releaseDownloadAgent_def Let_def split: option.splits)

text \<open>
  Claim C3. The count of the pool is to stay at or above zero under every operation, a
  release at count zero being a no-op. \<open>releaseDownloadAgent\<close> decrements first and resets the
  count to zero only inside the branch that finds a pool; in the state the module starts in
  (no pool, count zero) one release leaves the count at \<open>-1\<close>.
\<close>

theorem release_without_pool_negative:
  "sharedAgent initial_state = None \<and> agentRefCount initial_state = 0
   \<and> agentRefCount (releaseDownloadAgent initial_state) = - 1
   \<and> sharedAgent (releaseDownloadAgent initial_state) = None"
  by code_simp

text \<open>Acquiring and releasing, counted.\<close>

lemma acquire_times_Suc:
  "acquire_times (Suc n) u s = snd (getSharedAgent u (acquire_times n u s))"
  by (simp add: acquire_times_def)

lemma release_times_Suc:
  "release_times (Suc n) s = releaseDownloadAgent (release_times n s)"
  by (simp add: release_times_def)

text \<open>
  The first acquisition. Without a pool it succeeds exactly for a server URL whose origin
  begins with \<open>http:\<close> or \<open>https:\<close>, and then returns the pool it creates and stores;
  otherwise it throws and leaves the module state as it was.
\<close>

lemma getSharedAgent_absent_Inr:
  assumes "sharedAgent s = None" and "fst (getSharedAgent u s) = Inr p"
  shows "\<exists>orig. (u = Url orig \<or> u = OpaqueUrl orig) \<and> isHttpOrHttpsPrefixed orig
           \<and> p = \<lparr>pool_id = pools_created s, pool_origin = orig\<rparr>"
  using assms
  by (auto simp add: getSharedAgent_def create_pool_def Let_def
        split: server_url.splits if_splits)

lemma getSharedAgent_first:
  assumes "sharedAgent s = None" and "fst (getSharedAgent u s) = Inr p"
  shows "snd (getSharedAgent u s) =
           s\<lparr>sharedAgent := Some p, agentRefCount := 1,
             pools_created := Suc (pools_created s)\<rparr>"
    and "pool_id p = pools_created s"
  using assms
  by (auto simp add: getSharedAgent_def create_pool_def Let_def
        split: server_url.splits if_splits)

lemma getSharedAgent_refused:
  assumes "sharedAgent s = None" and "\<not> isHttpOrHttpsPrefixed orig"
  shows "getSharedAgent (Url orig) s =
           (Inl (if orig = ''null'' then InvalidURL else InvalidArgument), s)"
    and "getSharedAgent (OpaqueUrl orig) s =
           (Inl (if orig = ''null'' then InvalidURL else InvalidArgument), s)"
  using assms by (simp_all add: getSharedAgent_def create_pool_def)

lemma getSharedAgent_invalid:
  "sharedAgent s = None \<Longrightarrow> getSharedAgent InvalidUrl s = (Inl InvalidURL, s)"
  by (simp add: getSharedAgent_def)

lemma getSharedAgent_present:
  "sharedAgent s = Some p \<Longrightarrow>
   getSharedAgent u s = (Inr p, s\<lparr>agentRefCount := agentRefCount s + 1\<rparr>)"
  by (simp add: getSharedAgent_def)

lemma acquire_times_absent:
  assumes "sharedAgent s = None" and "fst (getSharedAgent u s) = Inr p"
  shows "acquire_times (Suc n) u s =
     s\<lparr>sharedAgent := Some p, agentRefCount := int (Suc n),
       pools_created := Suc (pools_created s)\<rparr>"
proof (induction n)
  case 0
  show ?case
    using getSharedAgent_first(1) [OF assms] by (simp add: acquire_times_def)
next
  case (Suc n)
  show ?case
    unfolding acquire_times_Suc [of "Suc n"] Suc.IH
    by (simp add: getSharedAgent_present [of _ p])
qed

lemma acquire_returns_shared:
  assumes "sharedAgent s = None" and "fst (getSharedAgent u s) = Inr p"
  shows "fst (getSharedAgent u (acquire_times k u s)) = Inr p"
proof (cases k)
  case 0
  then show ?thesis
    using assms(2) by (simp add: acquire_times_def)
next
  case (Suc j)
  show ?thesis
    unfolding Suc acquire_times_absent [OF assms]
    by (simp add: getSharedAgent_present [of _ p])
qed

lemma release_times_partial:
  "sharedAgent s = Some p \<Longrightarrow> agentRefCount s = int n \<Longrightarrow> k < n \<Longrightarrow>
   release_times k s = s\<lparr>agentRefCount := int n - int k\<rparr>"
proof (induction k)
  case 0
  then show ?case by (simp add: release_times_def)
next
  case (Suc k)
  then have "release_times k s = s\<lparr>agentRefCount := int n - int k\<rparr>"
    by simp
  then show ?case
    unfolding release_times_Suc
    using Suc.prems by (simp add: releaseDownloadAgent_def Let_def)
qed

lemma release_times_all:
  assumes "sharedAgent s = Some p" and "agentRefCount s = int (Suc n)"
  shows "release_times (Suc n) s =
     s\<lparr>sharedAgent := None, agentRefCount := 0, pools_closed := p # pools_closed s\<rparr>"
proof -
  have "release_times n s = s\<lparr>agentRefCount := int (Suc n) - int n\<rparr>"
    using release_times_partial [OF assms, of n] by simp
  then show ?thesis
    unfolding release_times_Suc
    using assms(1) by (simp add: releaseDownloadAgent_def Let_def)
qed

lemma open_pools_closed_new:
  assumes "pool_id p = pools_created s"
  shows "open_pools (s\<lparr>sharedAgent := a, agentRefCount := r,
       pools_created := Suc (pools_created s), pools_closed := p # pools_closed s\<rparr>) =
     open_pools s"
  using assms by (auto simp add: open_pools_def intro: filter_cong)

text \<open>
  Claim C8. Take a state without pool (with count zero, or any count when at least one
  acquisition follows) in which the first acquisition succeeds and returns the pool \<open>p\<close>.
  Then \<open>n\<close> acquisitions followed by \<open>n\<close> releases leave no pool and the count zero, and
  the pools open afterwards are those open before: the pool created by the first
  acquisition has been closed. Every one of the acquisitions returns that same instance
  \<open>p\<close>, and after \<open>k\<close> of them the count is \<open>k\<close>; after fewer than \<open>n\<close> releases the pool
  is still there, counted for the acquisitions not yet released.
\<close>

theorem acquire_release_round_trip:
  assumes "sharedAgent s = None" and "0 < n \<or> agentRefCount s = 0"
    and "n = 0 \<or> fst (getSharedAgent u s) = Inr p"
  shows "sharedAgent (release_times n (acquire_times n u s)) = None
       \<and> agentRefCount (release_times n (acquire_times n u s)) = 0
       \<and> open_pools (release_times n (acquire_times n u s)) = open_pools s
       \<and> (\<forall>k<n. fst (getSharedAgent u (acquire_times k u s)) = Inr p
                 \<and> agentRefCount (acquire_times (Suc k) u s) = int (Suc k))
       \<and> (\<forall>k<n. sharedAgent (release_times k (acquire_times n u s)) = Some p
                 \<and> agentRefCount (release_times k (acquire_times n u s)) = int (n - k))"
proof (cases n)
  case 0
  with assms show ?thesis
    by (simp add: release_times_def acquire_times_def)
next
  case (Suc m)
  then have first: "fst (getSharedAgent u s) = Inr p"
    using assms(3) by simp
  let ?a = "acquire_times (Suc m) u s"
  have a: "?a = s\<lparr>sharedAgent := Some p, agentRefCount := int (Suc m),
                   pools_created := Suc (pools_created s)\<rparr>"
    by (rule acquire_times_absent [OF assms(1) first])
  have "release_times (Suc m) ?a =
      ?a\<lparr>sharedAgent := None, agentRefCount := 0, pools_closed := p # pools_closed ?a\<rparr>"
    by (rule release_times_all) (simp_all add: a)
  then have r: "release_times (Suc m) ?a =
      s\<lparr>sharedAgent := None, agentRefCount := 0, pools_created := Suc (pools_created s),
        pools_closed := p # pools_closed s\<rparr>"
    by (simp add: a)
  have same: "\<forall>k<n. fst (getSharedAgent u (acquire_times k u s)) = Inr p
                 \<and> agentRefCount (acquire_times (Suc k) u s) = int (Suc k)"
    by (simp add: acquire_returns_shared [OF assms(1) first]
          acquire_times_absent [OF assms(1) first])
  have part: "\<forall>k<n. sharedAgent (release_times k ?a) = Some p
                 \<and> agentRefCount (release_times k ?a) = int (n - k)"
  proof (intro allI impI)
    fix k
    assume k: "k < n"
    have "release_times k ?a = ?a\<lparr>agentRefCount := int (Suc m) - int k\<rparr>"
      using k Suc by (intro release_times_partial [of ?a p "Suc m" k]) (simp_all add: a)
    then show "sharedAgent (release_times k ?a) = Some p
                 \<and> agentRefCount (release_times k ?a) = int (n - k)"
      using k Suc by (simp add: a)
  qed
  show ?thesis
    unfolding Suc r using same part
    by (simp add: Suc open_pools_closed_new [OF getSharedAgent_first(2) [OF assms(1) first]])
qed

theorem acquire_release_round_trip_witness:
  "sharedAgent (release_times 3 (acquire_times 3 example_server initial_state)) = None
   \<and> agentRefCount (release_times 3 (acquire_times 3 example_server initial_state)) = 0
   \<and> open_pools (release_times 3 (acquire_times 3 example_server initial_state)) = []
   \<and> agentRefCount (acquire_times 3 example_server initial_state) = 3"
proof -
  have absent: "sharedAgent initial_state = None"
    by (simp add: initial_state_def)
  have first: "(3::nat) = 0 \<or> fst (getSharedAgent example_server initial_state) =
      Inr \<lparr>pool_id = 0, pool_origin = ''https://matrix.example.com''\<rparr>"
    by code_simp
  have none_open: "open_pools initial_state = []"
    by (simp add: open_pools_def initial_state_def)
  have three: "agentRefCount (acquire_times 3 example_server initial_state) = 3"
    by code_simp
  have some: "(0::nat) < 3 \<or> agentRefCount initial_state = 0"
    by simp
  show ?thesis
    using acquire_release_round_trip [OF absent some first] none_open three
    by simp
qed

subsection \<open>The download call\<close>

text \<open>
  The ways the call ends before its loop, each with the module state as it was: an
  identifier component that holds an unpaired surrogate (\<open>encodeURIComponent\<close> throws), a
  server URL that \<open>new URL\<close> rejects as the base of the path, and, when no pool exists
  yet, an origin for which \<open>new Pool\<close> throws.
\<close>

lemma downloadPath_Inr:
  assumes "\<not> has_lone_surrogate (domain c)" and "\<not> has_lone_surrogate (mediaId c)"
  shows "\<exists>path. downloadPath endpoint c = Inr path"
  using assms by (simp add: downloadPath_def encodeURIComponent_def)

lemma downloadPath_Inl:
  assumes "has_lone_surrogate (domain c) \<or> has_lone_surrogate (mediaId c)"
  shows "downloadPath endpoint c = Inl URIError"
  using assms by (auto simp add: downloadPath_def encodeURIComponent_def)

lemma download_lone_surrogate:
  assumes "parseMXCUrl mxcUrl = Inr c"
    and "has_lone_surrogate (domain c) \<or> has_lone_surrogate (mediaId c)"
  shows "downloadContent_v2 net mxcUrl homeserverUrl tok ar t m s =
     (Inl UriError, probe_events homeserverUrl tok, s)"
  using assms(1) downloadPath_Inl [OF assms(2)]
  by (simp add: downloadContent_v2_def Let_def)

lemma download_invalid_url:
  assumes "parseMXCUrl mxcUrl = Inr c"
    and "\<not> has_lone_surrogate (domain c)" and "\<not> has_lone_surrogate (mediaId c)"
  shows "downloadContent_v2 net mxcUrl InvalidUrl tok ar t m s = (Inl UrlError, [], s)"
proof -
  obtain path where
    "downloadPath (getMediaEndpointPrefix InvalidUrl tok (probe net)) c = Inr path"
    using downloadPath_Inr [OF assms(2,3)] by blast
  then show ?thesis
    using assms(1) by (simp add: downloadContent_v2_def Let_def probe_events_def)
qed

lemma download_opaque_url:
  assumes "parseMXCUrl mxcUrl = Inr c"
    and "\<not> has_lone_surrogate (domain c)" and "\<not> has_lone_surrogate (mediaId c)"
  shows "downloadContent_v2 net mxcUrl (OpaqueUrl orig) tok ar t m s = (Inl UrlError, [], s)"
proof -
  obtain path where
    "downloadPath (getMediaEndpointPrefix (OpaqueUrl orig) tok (probe net)) c = Inr path"
    using downloadPath_Inr [OF assms(2,3)] by blast
  then show ?thesis
    using assms(1) by (simp add: downloadContent_v2_def Let_def probe_events_def)
qed

lemma download_pool_refused:
  assumes "parseMXCUrl mxcUrl = Inr c"
    and "\<not> has_lone_surrogate (domain c)" and "\<not> has_lone_surrogate (mediaId c)"
    and "sharedAgent s = None" and "\<not> isHttpOrHttpsPrefixed orig"
  shows "downloadContent_v2 net mxcUrl (Url orig) tok ar t m s =
     (Inl (if orig = ''null'' then UrlError else PoolError), probe_events (Url orig) tok, s)"
proof -
  obtain path where
    "downloadPath (getMediaEndpointPrefix (Url orig) tok (probe net)) c = Inr path"
    using downloadPath_Inr [OF assms(2,3)] by blast
  then show ?thesis
    using assms(1,4,5)
    by (simp add: downloadContent_v2_def Let_def getSharedAgent_def create_pool_def)
qed

lemma download_ftp_origin:
  "downloadContent_v2 down_network (Some ''mxc://matrix.org/abc'') (Url ''ftp://example.com'')
      ''token'' True 30000 3 initial_state
   = (Inl PoolError, [ProbeVersions ''ftp://example.com'' (Some ''token'')], initial_state)"
  by code_simp

lemma download_surrogate_example:
  "downloadContent_v2 down_network
      (Some (''mxc://matrix.org/'' @ [char_of (237::nat), char_of (160::nat), char_of (128::nat)]))
      example_server ''token'' True 30000 3 initial_state =
   (Inl UriError, [ProbeVersions ''https://matrix.example.com'' (Some ''token'')], initial_state)"
  by code_simp

text \<open>
  A whole call, and a call for another origin while a pool exists: its requests go to the
  origin of the pool.
\<close>

lemma download_flaky_example:
  "downloadContent_v2 flaky_network (Some ''mxc://matrix.org/a b'') example_server ''token''
      False 30000 3 initial_state =
   (Inr \<lparr>data = ''abcd'', contentType = ''image/png''\<rparr>,
    [ProbeVersions ''https://matrix.example.com'' (Some ''token''),
     HttpGet (Request ''https://matrix.example.com''
       ''/_matrix/media/v3/download/matrix.org/a%20b'' True ''token''),
     Sleep 1000,
     HttpGet (Request ''https://matrix.example.com''
       ''/_matrix/media/v3/download/matrix.org/a%20b'' True ''token''),
     Sleep 2000,
     HttpGet (Request ''https://matrix.example.com''
       ''/_matrix/media/v3/download/matrix.org/a%20b'' True ''token'')],
    \<lparr>sharedAgent = Some \<lparr>pool_id = 0, pool_origin = ''https://matrix.example.com''\<rparr>,
     agentRefCount = 1, pools_created = 1, pools_closed = []\<rparr>)"
  by code_simp

lemma download_second_call_other_origin:
  "fst (snd (downloadContent_v2 down_network (Some ''mxc://matrix.org/abc'')
      (Url ''ftp://example.com'') ''token'' True 30000 1
      (snd (getSharedAgent example_server initial_state)))) =
   [ProbeVersions ''ftp://example.com'' (Some ''token''),
    HttpGet (Request ''https://matrix.example.com''
      ''/_matrix/media/v3/download/matrix.org/abc'' False ''token'')]"
  by code_simp

text \<open>
  With an identifier that parses and whose components hold no unpaired surrogate, a server
  URL that \<open>new URL\<close> accepts as the base of the path, and an acquisition of the pool that
  succeeds, the call is the probe, the acquisition and the attempt loop on a fixed request.
\<close>

lemma download_parsed:
  assumes "parseMXCUrl mxcUrl = Inr c"
    and "\<not> has_lone_surrogate (domain c)" and "\<not> has_lone_surrogate (mediaId c)"
    and "fst (getSharedAgent (Url orig) s) = Inr agent"
  shows "\<exists>rq. downloadContent_v2 net mxcUrl (Url orig) tok ar t m s =
     (fst (attempt_loop (responses net) rq m 0 None),
      probe_events (Url orig) tok @ snd (attempt_loop (responses net) rq m 0 None),
      snd (getSharedAgent (Url orig) s))"
proof -
  obtain path where
    "downloadPath (getMediaEndpointPrefix (Url orig) tok (probe net)) c = Inr path"
    using downloadPath_Inr [OF assms(2,3)] by blast
  moreover obtain s' where "getSharedAgent (Url orig) s = (Inr agent, s')"
    using assms(4) by (cases "getSharedAgent (Url orig) s") simp
  ultimately show ?thesis
    using assms(1) by (auto simp add: downloadContent_v2_def Let_def)
qed

text \<open>
  In every case the events of a call are the probe, if any, followed by the events of an
  attempt loop, if it is reached.
\<close>

lemma download_events:
  "fst (snd (downloadContent_v2 net mxcUrl homeserverUrl tok ar t m s)) = []
   \<or> fst (snd (downloadContent_v2 net mxcUrl homeserverUrl tok ar t m s)) =
       probe_events homeserverUrl tok
   \<or> (\<exists>rq. fst (snd (downloadContent_v2 net mxcUrl homeserverUrl tok ar t m s)) =
         probe_events homeserverUrl tok @ snd (attempt_loop (responses net) rq m 0 None))"
  by (auto simp add: downloadContent_v2_def Let_def
        split: sum.splits server_url.splits prod.splits thrown.splits)

lemma attempts_made_append: "attempts_made (xs @ ys) = attempts_made xs + attempts_made ys"
  by (simp add: attempts_made_def)

lemma attempts_made_probe_events [simp]: "attempts_made (probe_events hs tok) = 0"
  by (simp add: attempts_made_def probe_events_def split: server_url.splits)

lemma attempts_made_schedule:
  "attempts_made (concat (map (attempt_events rq) [a..<b])) = b - a"
proof (induction b)
  case 0
  show ?case by (simp add: attempts_made_def)
next
  case (Suc b)
  then show ?case
    by (cases "a \<le> b") (simp_all add: attempts_made_append attempts_made_single)
qed

lemma steps_append: "steps (xs @ ys) = steps xs @ steps ys"
  by (induction xs rule: steps.induct) simp_all

lemma steps_probe_events [simp]: "steps (probe_events hs tok) = []"
  by (simp add: probe_events_def split: server_url.splits)

lemma steps_attempt_events:
  "steps (attempt_events rq i) =
     (if 0 < i then [Wait (min (1000 * 2 ^ (i - 1)) 8000)] else []) @ [Issue]"
  by (simp add: attempt_events_def)

lemma steps_schedule:
  "steps (concat (map (attempt_events rq) is)) =
   concat (map (\<lambda>i. (if 0 < i then [Wait (min (1000 * 2 ^ (i - 1)) 8000)] else []) @ [Issue]) is)"
  by (induction "is") (simp_all add: steps_append steps_attempt_events)

lemma attempts_made_steps: "attempts_made evs = length (filter (\<lambda>x. x = Issue) (steps evs))"
  by (induction evs rule: steps.induct) (simp_all add: attempts_made_def)

text \<open>
  Which failures let the loop go on: a rejected request, a failing body stream and a status
  outside 200 to 299 all do, unless the message of the error contains the phrase
  \<open>Not a valid MXC URI\<close>.
\<close>

lemma retryable_failure_rejected:
  "retryable_failure (RequestRejected msg) = (\<not> js_includes msg ''Not a valid MXC URI'')"
  by (simp add: retryable_failure_def attempt_once_def)

lemma retryable_failure_status:
  assumes "st < 200 \<or> 300 \<le> st"
  shows "retryable_failure (Response st hs cs None) =
     (\<not> js_includes (''HTTP '' @ string_of_nat st @ '': '' @
          (if body_text cs = [] then ''Unknown error'' else body_text cs))
        ''Not a valid MXC URI'')"
  using assms by (auto simp add: retryable_failure_def attempt_once_def Let_def)

text \<open>The delays of the first retries, and the cap.\<close>

lemma backoff_delay_values:
  "backoff_delay 1 = 1000 \<and> backoff_delay 2 = 2000 \<and> backoff_delay 3 = 4000
   \<and> backoff_delay 4 = 8000 \<and> backoff_delay 5 = 8000"
  by code_simp

lemma backoff_delay_cap:
  assumes "4 \<le> a"
  shows "backoff_delay a = 8000"
proof -
  have "3 \<le> nat (a - 1)" using assms by simp
  then have "(2::int) ^ 3 \<le> 2 ^ nat (a - 1)"
    by (intro power_increasing) simp_all
  then show ?thesis
    by (simp add: backoff_delay_def)
qed

subsection \<open>Results of the download call\<close>

text \<open>
  Claim C7. When parsing the identifier fails, the call fails with that parse error at
  once, whatever \<open>maxRetries\<close> is: there is no event at all (no probe, no wait, no
  request) and the module state is untouched.
\<close>

theorem download_parse_failure:
  "parseMXCUrl mxcUrl = Inl e \<Longrightarrow>
   downloadContent_v2 net mxcUrl homeserverUrl tok ar t maxRetries s = (Inl (ParseError e), [], s)"
  by (simp add: downloadContent_v2_def)

theorem download_parse_failure_witness:
  "downloadContent_v2 down_network (Some ''https://example.com/image.png'') example_server
      ''token'' True 5000 3 initial_state
   = (Inl (ParseError NotValidMXC), [], initial_state)"
proof -
  have p: "parseMXCUrl (Some ''https://example.com/image.png'') = Inl NotValidMXC"
    by code_simp
  show ?thesis
    by (rule download_parse_failure [OF p])
qed

text \<open>
  Claim C9. The timeout budget has no effect: two calls that differ only in \<open>timeoutMs\<close>,
  with the same answers from the network, have the same result, the same events and the
  same module state afterwards.
\<close>

theorem download_ignores_timeout:
  "downloadContent_v2 net mxcUrl homeserverUrl tok ar t1 maxRetries s =
   downloadContent_v2 net mxcUrl homeserverUrl tok ar t2 maxRetries s"
  by (simp add: downloadContent_v2_def)

text \<open>
  Claim C6. In every call the waits and requests are, in order, those of the attempts made:
  attempt 0 is the request alone, and each attempt \<open>i > 0\<close> is one wait of
  \<open>min(1000 * 2^(i-1), 8000)\<close> milliseconds followed by the request. So there is no wait
  before the first request, exactly one before each later one, of the stated length, and no
  other wait.
\<close>

theorem download_backoff_schedule:
  "steps (fst (snd (downloadContent_v2 net mxcUrl homeserverUrl tok ar t maxRetries s))) =
   concat (map (\<lambda>i. (if 0 < i then [Wait (min (1000 * 2 ^ (i - 1)) 8000)] else []) @ [Issue])
     [0 ..< attempts_made (fst (snd (downloadContent_v2 net mxcUrl homeserverUrl tok ar t maxRetries s)))])"
proof -
  let ?call = "fst (snd (downloadContent_v2 net mxcUrl homeserverUrl tok ar t maxRetries s))"
  consider "?call = []" | "?call = probe_events homeserverUrl tok"
    | rq where "?call = probe_events homeserverUrl tok @
        snd (attempt_loop (responses net) rq maxRetries 0 None)"
    using download_events [of net mxcUrl homeserverUrl tok ar t maxRetries s] by blast
  then show ?thesis
  proof cases
    case 1
    then show ?thesis by (simp add: attempts_made_def)
  next
    case 2
    then show ?thesis by simp
  next
    case 3
    let ?evs = "snd (attempt_loop (responses net) rq maxRetries 0 None)"
    have e: "?evs = concat (map (attempt_events rq) [0 ..< attempts_made ?evs])"
      using attempt_loop_events [of 0 "responses net" rq maxRetries None] by simp
    have "steps ?evs = steps (concat (map (attempt_events rq) [0 ..< attempts_made ?evs]))"
      using e by simp
    then show ?thesis
      unfolding 3 by (simp add: steps_append steps_schedule attempts_made_append)
  qed
qed

theorem download_backoff_schedule_witness:
  "steps (fst (snd (downloadContent_v2 flaky_network (Some ''mxc://matrix.org/abc'')
      example_server ''token'' True 30000 3 initial_state)))
   = [Issue, Wait 1000, Issue, Wait 2000, Issue]"
proof -
  have made: "attempts_made (fst (snd (downloadContent_v2 flaky_network
      (Some ''mxc://matrix.org/abc'') example_server ''token'' True 30000 3 initial_state))) = 3"
    by code_simp
  have upt3: "[0..<3] = [0, 1, 2]"
    by code_simp
  show ?thesis
    using download_backoff_schedule [of flaky_network "Some ''mxc://matrix.org/abc''"
        example_server "''token''" True 30000 3 initial_state]
    unfolding made upt3 by simp
qed

text \<open>
  A response with status 200 whose \<open>Content-Type\<close> header is present with an empty value:
  the result does not carry the header's value but the octet-stream default, because the
  default is chosen by \<open>||\<close>, which takes the empty string as absent.
\<close>

theorem download_content_type_counterexample:
  "statusCode (responses empty_type_network 0) = 200
   \<and> headers (responses empty_type_network 0) ''content-type'' = Some []
   \<and> fst (downloadContent_v2 empty_type_network (Some ''mxc://matrix.org/abc'') example_server
            ''token'' True 30000 3 initial_state)
       = Inr \<lparr>data = ''abc'', contentType = ''application/octet-stream''\<rparr>
   \<and> fst (downloadContent_v2 empty_type_network (Some ''mxc://matrix.org/abc'') example_server
            ''token'' True 30000 3 initial_state)
       \<noteq> Inr \<lparr>data = ''abc'', contentType = []\<rparr>"
  by code_simp

text \<open>
  Claim C4, amended. Let the identifier parse into components without unpaired surrogate,
  let \<open>new URL\<close> accept the server URL as the base of the path, and let the acquisition of
  the pool succeed. If the attempts
  before attempt \<open>k\<close> fail in a way that lets the loop go on, \<open>k\<close> is below \<open>maxRetries\<close>,
  and attempt \<open>k\<close> gets a response with status in 200 to 299 whose body stream ends without
  error, then the call returns a result whose payload is the concatenation of the chunks of
  that body (its length the sum of their lengths) and whose content type is the value of
  the \<open>content-type\<close> header, or the octet-stream default when the header is absent or
  empty; \<open>k + 1\<close> requests have been issued.
\<close>

theorem download_success:
  assumes "parseMXCUrl mxcUrl = Inr c"
    and "\<not> has_lone_surrogate (domain c)" and "\<not> has_lone_surrogate (mediaId c)"
    and "fst (getSharedAgent (Url orig) s) = Inr agent"
    and "int k < maxRetries"
    and "\<forall>i < k. retryable_failure (responses net i)"
    and "responses net k = Response st hs cs None" and "200 \<le> st" and "st < 300"
  shows "fst (downloadContent_v2 net mxcUrl (Url orig) tok ar t maxRetries s) =
           Inr \<lparr>data = concat cs,
                contentType = (case hs ''content-type'' of
                                 None \<Rightarrow> ''application/octet-stream''
                               | Some v \<Rightarrow> if v = [] then ''application/octet-stream'' else v)\<rparr>
         \<and> (case fst (downloadContent_v2 net mxcUrl (Url orig) tok ar t maxRetries s) of
               Inr result \<Rightarrow> length (data result) = sum_list (map length cs)
             | Inl _ \<Rightarrow> False)
         \<and> attempts_made (fst (snd (downloadContent_v2 net mxcUrl (Url orig) tok ar t maxRetries s))) = Suc k"
proof -
  let ?res = "\<lparr>data = concat cs,
                contentType = (case hs ''content-type'' of
                                 None \<Rightarrow> ''application/octet-stream''
                               | Some v \<Rightarrow> if v = [] then ''application/octet-stream'' else v)\<rparr>"
  obtain rq where d: "downloadContent_v2 net mxcUrl (Url orig) tok ar t maxRetries s =
     (fst (attempt_loop (responses net) rq maxRetries 0 None),
      probe_events (Url orig) tok @ snd (attempt_loop (responses net) rq maxRetries 0 None),
      snd (getSharedAgent (Url orig) s))"
    using download_parsed [OF assms(1-4)] by blast
  have once: "attempt_once (responses net k) = Inr ?res"
    using assms(7,8,9) by (simp add: attempt_once_def)
  have "attempt_loop (responses net) rq maxRetries 0 None =
     (Inr ?res, concat (map (attempt_events rq) [nat 0 ..< Suc k]))"
    using assms(5,6) once by (intro attempt_loop_success) auto
  then show ?thesis
    unfolding d by (simp add: attempts_made_append attempts_made_schedule length_concat del: upt_Suc)
qed

theorem download_success_witness:
  "fst (downloadContent_v2 flaky_network (Some ''mxc://matrix.org/abc'') example_server
          ''token'' True 30000 3 initial_state)
     = Inr \<lparr>data = ''abcd'', contentType = ''image/png''\<rparr>
   \<and> attempts_made (fst (snd (downloadContent_v2 flaky_network (Some ''mxc://matrix.org/abc'')
          example_server ''token'' True 30000 3 initial_state))) = 3"
proof -
  have p: "parseMXCUrl (Some ''mxc://matrix.org/abc'') =
      Inr \<lparr>domain = ''matrix.org'', mediaId = ''abc''\<rparr>"
    by code_simp
  have ns1: "\<not> has_lone_surrogate (domain \<lparr>domain = ''matrix.org'', mediaId = ''abc''\<rparr>)"
    by code_simp
  have ns2: "\<not> has_lone_surrogate (mediaId \<lparr>domain = ''matrix.org'', mediaId = ''abc''\<rparr>)"
    by code_simp
  have acq: "fst (getSharedAgent (Url ''https://matrix.example.com'') initial_state) =
      Inr \<lparr>pool_id = 0, pool_origin = ''https://matrix.example.com''\<rparr>"
    by code_simp
  have busy: "retryable_failure (Response 503 Map.empty [''busy''] None)"
    by code_simp
  have r: "\<forall>i<2. retryable_failure (responses flaky_network i)"
    using busy by (simp add: flaky_network_def)
  have k: "responses flaky_network 2 =
      Response 200 [''content-type'' \<mapsto> ''image/png''] [''ab'', ''cd''] None"
    by (simp add: flaky_network_def)
  have lt: "int 2 < 3" by simp
  have "fst (downloadContent_v2 flaky_network (Some ''mxc://matrix.org/abc'')
          (Url ''https://matrix.example.com'') ''token'' True 30000 3 initial_state) =
        Inr \<lparr>data = concat [''ab'', ''cd''],
             contentType = (case [''content-type'' \<mapsto> ''image/png''] ''content-type'' of
                              None \<Rightarrow> ''application/octet-stream''
                            | Some v \<Rightarrow> if v = [] then ''application/octet-stream'' else v)\<rparr>
      \<and> (case fst (downloadContent_v2 flaky_network (Some ''mxc://matrix.org/abc'')
              (Url ''https://matrix.example.com'') ''token'' True 30000 3 initial_state) of
            Inr result \<Rightarrow> length (data result) = sum_list (map length [''ab'', ''cd''])
          | Inl _ \<Rightarrow> False)
      \<and> attempts_made (fst (snd (downloadContent_v2 flaky_network (Some ''mxc://matrix.org/abc'')
          (Url ''https://matrix.example.com'') ''token'' True 30000 3 initial_state))) = Suc 2"
    by (rule download_success [OF p ns1 ns2 acq lt r k]) simp_all
  then show ?thesis
    by (simp add: example_server_def)
qed

text \<open>
  A server that answers every attempt with status 404 and a body quoting the phrase
  \<open>Not a valid MXC URI\<close>: with \<open>maxRetries = 3\<close> the first failure ends the call. One
  request is issued, and the error is the first attempt's own, not the wrapper.
\<close>

theorem download_phrase_counterexample:
  "statusCode (responses phrase_network 0) = 404
   \<and> statusCode (responses phrase_network 1) = 404
   \<and> statusCode (responses phrase_network 2) = 404
   \<and> fst (downloadContent_v2 phrase_network (Some ''mxc://matrix.org/abc'') example_server
            ''token'' True 30000 3 initial_state)
       = Inl (Rethrown ''HTTP 404: Not a valid MXC URI'')
   \<and> attempts_made (fst (snd (downloadContent_v2 phrase_network (Some ''mxc://matrix.org/abc'')
            example_server ''token'' True 30000 3 initial_state))) = 1"
  by code_simp

text \<open>
  Claim C5, amended. Let the identifier parse into components without unpaired surrogate,
  let \<open>new URL\<close> accept the server URL as the base of the path, let the acquisition of the
  pool succeed, and let
  \<open>maxRetries = n\<close> with \<open>n\<close> at least 1. If every one of the attempts \<open>0\<close> to \<open>n - 1\<close> fails
  (status outside 200 to 299, rejected request, or failing body stream) with an error whose
  message does not contain \<open>Not a valid MXC URI\<close>, then exactly \<open>n\<close> requests are issued and
  the call fails with the exhausted-retries error that carries \<open>n\<close> and the message of the
  last attempt's error.
\<close>

theorem download_exhausted:
  assumes "parseMXCUrl mxcUrl = Inr c"
    and "\<not> has_lone_surrogate (domain c)" and "\<not> has_lone_surrogate (mediaId c)"
    and "fst (getSharedAgent (Url orig) s) = Inr agent"
    and "1 \<le> n"
    and "\<forall>i < nat n. retryable_failure (responses net i)"
  shows "fst (downloadContent_v2 net mxcUrl (Url orig) tok ar t n s) =
           Inl (ExhaustedRetries n (failure_message (responses net (nat n - 1))))
         \<and> attempts_made (fst (snd (downloadContent_v2 net mxcUrl (Url orig) tok ar t n s))) = nat n"
proof -
  obtain rq where d: "downloadContent_v2 net mxcUrl (Url orig) tok ar t n s =
     (fst (attempt_loop (responses net) rq n 0 None),
      probe_events (Url orig) tok @ snd (attempt_loop (responses net) rq n 0 None),
      snd (getSharedAgent (Url orig) s))"
    using download_parsed [OF assms(1-4)] by blast
  have "attempt_loop (responses net) rq n 0 None =
     (Inl (ExhaustedRetries n (failure_message (responses net (nat n - 1)))),
      concat (map (attempt_events rq) [nat 0 ..< nat n]))"
    using assms(5,6) by (intro attempt_loop_exhausted) auto
  then show ?thesis
    unfolding d by (simp add: attempts_made_append attempts_made_schedule)
qed

theorem download_exhausted_witness:
  "fst (downloadContent_v2 down_network (Some ''mxc://matrix.org/abc'') example_server
          ''token'' True 30000 2 initial_state)
     = Inl (ExhaustedRetries 2 ''connect ECONNREFUSED'')
   \<and> attempts_made (fst (snd (downloadContent_v2 down_network (Some ''mxc://matrix.org/abc'')
          example_server ''token'' True 30000 2 initial_state))) = 2"
proof -
  have p: "parseMXCUrl (Some ''mxc://matrix.org/abc'') =
      Inr \<lparr>domain = ''matrix.org'', mediaId = ''abc''\<rparr>"
    by code_simp
  have ns1: "\<not> has_lone_surrogate (domain \<lparr>domain = ''matrix.org'', mediaId = ''abc''\<rparr>)"
    by code_simp
  have ns2: "\<not> has_lone_surrogate (mediaId \<lparr>domain = ''matrix.org'', mediaId = ''abc''\<rparr>)"
    by code_simp
  have acq: "fst (getSharedAgent (Url ''https://matrix.example.com'') initial_state) =
      Inr \<lparr>pool_id = 0, pool_origin = ''https://matrix.example.com''\<rparr>"
    by code_simp
  have refused: "retryable_failure (RequestRejected ''connect ECONNREFUSED'')"
    by code_simp
  have r: "\<forall>i<nat 2. retryable_failure (responses down_network i)"
    using refused by (simp add: down_network_def)
  have msg: "failure_message (responses down_network (nat 2 - 1)) = ''connect ECONNREFUSED''"
    by code_simp
  have one: "(1::int) \<le> 2" by simp
  show ?thesis
    using download_exhausted [OF p ns1 ns2 acq one r, of "''token''" True 30000] msg
    by (simp add: example_server_def)
qed

text \<open>
  A valid identifier and \<open>maxRetries = 0\<close> with a server URL that \<open>new URL\<close> rejects (the
  empty string, which the caller in \<open>monitor/media.ts\<close> passes for a client without
  homeserver): the call fails with the constructor's error, not with the generic one.
\<close>

theorem download_invalid_url_counterexample:
  "parseMXCUrl (Some ''mxc://matrix.org/abc'') = Inr \<lparr>domain = ''matrix.org'', mediaId = ''abc''\<rparr>
   \<and> fst (downloadContent_v2 down_network (Some ''mxc://matrix.org/abc'') InvalidUrl
            ''token'' True 30000 0 initial_state) = Inl UrlError
   \<and> error_message UrlError \<noteq> ''Download failed for unknown reason''"
  by code_simp

text \<open>
  Claim C10, amended. For an identifier that parses into components without unpaired
  surrogate, a server URL that \<open>new URL\<close> accepts as the base of the path, and an
  acquisition of the pool that succeeds, a call
  with \<open>maxRetries\<close> at most zero issues no media request (its only event is the versions
  probe) and fails with the generic error, whose message is
  \<open>Download failed for unknown reason\<close>; the pool has been acquired all the same.
\<close>

theorem download_no_attempts:
  assumes "parseMXCUrl mxcUrl = Inr c"
    and "\<not> has_lone_surrogate (domain c)" and "\<not> has_lone_surrogate (mediaId c)"
    and "fst (getSharedAgent (Url orig) s) = Inr agent"
    and "maxRetries \<le> 0"
  shows "downloadContent_v2 net mxcUrl (Url orig) tok ar t maxRetries s =
           (Inl UnknownReason, probe_events (Url orig) tok, snd (getSharedAgent (Url orig) s))
         \<and> attempts_made (fst (snd (downloadContent_v2 net mxcUrl (Url orig) tok ar t maxRetries s))) = 0
         \<and> (case fst (downloadContent_v2 net mxcUrl (Url orig) tok ar t maxRetries s) of
               Inl e \<Rightarrow> error_message e = ''Download failed for unknown reason''
             | Inr _ \<Rightarrow> False)"
proof -
  obtain rq where d: "downloadContent_v2 net mxcUrl (Url orig) tok ar t maxRetries s =
     (fst (attempt_loop (responses net) rq maxRetries 0 None),
      probe_events (Url orig) tok @ snd (attempt_loop (responses net) rq maxRetries 0 None),
      snd (getSharedAgent (Url orig) s))"
    using download_parsed [OF assms(1-4)] by blast
  have "attempt_loop (responses net) rq maxRetries 0 None = (Inl UnknownReason, [])"
    using assms(5) by (intro attempt_loop_none) simp
  then show ?thesis
    unfolding d by simp
qed

theorem download_no_attempts_witness:
  "downloadContent_v2 flaky_network (Some ''mxc://matrix.org/abc'') example_server
      ''token'' True 30000 0 initial_state
   = (Inl UnknownReason, [ProbeVersions ''https://matrix.example.com'' (Some ''token'')],
      \<lparr>sharedAgent = Some \<lparr>pool_id = 0, pool_origin = ''https://matrix.example.com''\<rparr>,
       agentRefCount = 1, pools_created = 1, pools_closed = []\<rparr>)"
proof -
  have p: "parseMXCUrl (Some ''mxc://matrix.org/abc'') =
      Inr \<lparr>domain = ''matrix.org'', mediaId = ''abc''\<rparr>"
    by code_simp
  have ns1: "\<not> has_lone_surrogate (domain \<lparr>domain = ''matrix.org'', mediaId = ''abc''\<rparr>)"
    by code_simp
  have ns2: "\<not> has_lone_surrogate (mediaId \<lparr>domain = ''matrix.org'', mediaId = ''abc''\<rparr>)"
    by code_simp
  have acq: "fst (getSharedAgent (Url ''https://matrix.example.com'') initial_state) =
      Inr \<lparr>pool_id = 0, pool_origin = ''https://matrix.example.com''\<rparr>"
    by code_simp
  have zero: "(0::int) \<le> 0" by simp
  have ev: "probe_events (Url ''https://matrix.example.com'') ''token'' =
      [ProbeVersions ''https://matrix.example.com'' (Some ''token'')]"
    by code_simp
  have st: "snd (getSharedAgent (Url ''https://matrix.example.com'') initial_state) =
      \<lparr>sharedAgent = Some \<lparr>pool_id = 0, pool_origin = ''https://matrix.example.com''\<rparr>,
       agentRefCount = 1, pools_created = 1, pools_closed = []\<rparr>"
    by code_simp
  show ?thesis
    using download_no_attempts [OF p ns1 ns2 acq zero, of flaky_network "''token''" True 30000]
    unfolding ev st by (simp add: example_server_def)
qed

end
